theory Spec2Isabelle
  imports Main "HOL-Library.Word" "HOL-Library.Sublist"
begin

unbundle bit_operations_syntax

section \<open>The CartoType string engine (cartotype\_string.h)\<close>

text \<open>
  A shallow embedding of the string classes declared in \<^verbatim>\<open>cartotype_string.h\<close>:
  the lexicographic comparison functions of \<^verbatim>\<open>MString\<close>, the flag set
  \<^verbatim>\<open>StringMatchMethod\<close>, the four storage classes and their mutators, and the
  folding iterator.

  UTF-16 code units are 16-bit words. The text a string object holds is the sequence of
  \<^verbatim>\<open>iLength\<close> code units that start at \<^verbatim>\<open>Data()\<close>; the comparison functions
  read nothing else of the object, so they are modelled on that sequence, the loop
  counters \<^verbatim>\<open>n\<close> and \<^verbatim>\<open>m\<close> being the numbers of units still to be read.
\<close>

type_synonym u16 = "16 word"
type_synonym u32 = "32 word"

subsection \<open>MString::Compare(const MString\&)\<close>

text \<open>
  The loop runs while both counters are non-zero, returns \<open>-2\<close> or \<open>2\<close> at the first
  pair of different units, and after the loop looks at \<^verbatim>\<open>m\<close> first, then at \<^verbatim>\<open>n\<close>.
\<close>

fun Compare :: "u16 list \<Rightarrow> u16 list \<Rightarrow> int" where
  "Compare (p # ps) (q # qs) =
     (if p < q then - 2 else if p > q then 2 else Compare ps qs)"
| "Compare [] (q # qs) = - 1"
| "Compare (p # ps) [] = 1"
| "Compare [] [] = 0"

subsection \<open>MString::Compare(const uint16\_t*) and Compare(const uint16\_t*, size\_t)\<close>

text \<open>
  The text argument is a pointer. It is modelled by the list of the units that can be read
  from it; reading beyond that list is an access outside the caller's buffer, which the
  model returns as \<open>None\<close>. \<^verbatim>\<open>size_t\<close> is taken to be 64 bits wide.
\<close>

definition npos :: nat where
  "npos = 2 ^ 64 - 1"

text \<open>
  The null-terminated overload: for each unit of this string it first tests the text for
  its terminator, then compares; when this string is used up it tests the terminator again.
\<close>

fun Compare_z :: "u16 list \<Rightarrow> u16 list \<Rightarrow> int option" where
  "Compare_z (p # ps) (q # qs) =
     (if q = 0 then Some 1
      else if p < q then Some (- 2)
      else if p > q then Some 2
      else Compare_z ps qs)"
| "Compare_z [] (q # qs) = (if q = 0 then Some 0 else Some (- 1))"
| "Compare_z ps [] = None"

text \<open>The loop of the overload with a length; \<open>m\<close> counts the units of the text left.\<close>

fun Compare_n_loop :: "u16 list \<Rightarrow> u16 list \<Rightarrow> nat \<Rightarrow> int option" where
  "Compare_n_loop [] q m = (if m \<noteq> 0 then Some (- 1) else Some 0)"
| "Compare_n_loop (p # ps) q 0 = Some 1"
| "Compare_n_loop (p # ps) [] (Suc m) = None"
| "Compare_n_loop (p # ps) (q # qs) (Suc m) =
     (if p < q then Some (- 2)
      else if p > q then Some 2
      else Compare_n_loop ps qs m)"

definition Compare_n :: "u16 list \<Rightarrow> u16 list \<Rightarrow> nat \<Rightarrow> int option" where
  "Compare_n this aText aLength =
     (if aLength = npos then Compare_z this aText
      else Compare_n_loop this aText aLength)"

subsection \<open>StringMatchMethodFlag and StringMatchMethod\<close>

text \<open>
  \<^verbatim>\<open>enum class StringMatchMethodFlag\<close> has the underlying type \<^verbatim>\<open>int\<close>, so a flag
  is any 32-bit value; the seven enumerators are the declared ones.
\<close>

type_synonym StringMatchMethodFlag = "32 word"

definition Exact :: StringMatchMethodFlag where
  "Exact = 0"

definition Prefix :: StringMatchMethodFlag where
  "Prefix = 1"

definition IgnoreSymbols :: StringMatchMethodFlag where
  "IgnoreSymbols = 2"

definition FoldAccents :: StringMatchMethodFlag where
  "FoldAccents = 4"

definition Fuzzy :: StringMatchMethodFlag where
  "Fuzzy = 8"

definition FoldCase :: StringMatchMethodFlag where
  "FoldCase = 16"

definition IgnoreWhitespace :: StringMatchMethodFlag where
  "IgnoreWhitespace = 32"

definition declared_flag :: "StringMatchMethodFlag \<Rightarrow> bool" where
  "declared_flag aFlag \<longleftrightarrow>
     aFlag \<in> set [Exact, Prefix, IgnoreSymbols, FoldAccents, Fuzzy, FoldCase, IgnoreWhitespace]"

text \<open>The conversion \<^verbatim>\<open>uint16_t(aFlag)\<close> keeps the low 16 bits.\<close>

definition flag_u16 :: "StringMatchMethodFlag \<Rightarrow> u16" where
  "flag_u16 aFlag = ucast aFlag"

record StringMatchMethod =
  m_flags :: u16

text \<open>The defaulted constructor leaves \<^verbatim>\<open>m_flags\<close> at its initialiser \<open>0\<close>.\<close>

definition StringMatchMethod_default :: StringMatchMethod where
  "StringMatchMethod_default = \<lparr>m_flags = 0\<rparr>"

text \<open>
  The private constructor \<^verbatim>\<open>StringMatchMethod(unsigned int aFlags)\<close> and the static
  function \<^verbatim>\<open>FromFlags\<close> that calls it.
\<close>

definition StringMatchMethod_raw :: "u32 \<Rightarrow> StringMatchMethod" where
  "StringMatchMethod_raw aFlags = \<lparr>m_flags = ucast (aFlags AND 63)\<rparr>"

definition FromFlags :: "u32 \<Rightarrow> StringMatchMethod" where
  "FromFlags aFlags = StringMatchMethod_raw aFlags"

text \<open>
  Modelled from the spec: the constructor from up to six flags is declared in the header and
  its body is missing. The spec says a method is constructible from up to six flags; the
  model sets the bits of all six, converted as the assigning operators convert theirs.
\<close>

definition StringMatchMethod_flags ::
  "StringMatchMethodFlag \<Rightarrow> StringMatchMethodFlag \<Rightarrow> StringMatchMethodFlag \<Rightarrow>
   StringMatchMethodFlag \<Rightarrow> StringMatchMethodFlag \<Rightarrow> StringMatchMethodFlag \<Rightarrow>
   StringMatchMethod" where
  "StringMatchMethod_flags aFlag1 aFlag2 aFlag3 aFlag4 aFlag5 aFlag6 =
     \<lparr>m_flags = flag_u16 aFlag1 OR flag_u16 aFlag2 OR flag_u16 aFlag3
                 OR flag_u16 aFlag4 OR flag_u16 aFlag5 OR flag_u16 aFlag6\<rparr>"

text \<open>
  \<^verbatim>\<open>operator+=\<close> and \<^verbatim>\<open>operator-=\<close> assign to \<^verbatim>\<open>m_flags\<close> of the object they are
  called on and return a copy of it. The model returns the pair of the object after the
  call and the returned copy.
\<close>

definition op_plus_assign ::
  "StringMatchMethod \<Rightarrow> StringMatchMethodFlag \<Rightarrow> StringMatchMethod \<times> StringMatchMethod" where
  "op_plus_assign this aFlag =
     (let this' = this\<lparr>m_flags := m_flags this OR flag_u16 aFlag\<rparr> in (this', this'))"

definition op_minus_assign ::
  "StringMatchMethod \<Rightarrow> StringMatchMethodFlag \<Rightarrow> StringMatchMethod \<times> StringMatchMethod" where
  "op_minus_assign this aFlag =
     (let this' = this\<lparr>m_flags := m_flags this AND NOT (flag_u16 aFlag)\<rparr> in (this', this'))"

text \<open>The member functions declared \<^verbatim>\<open>const\<close> that the header defines.\<close>

definition Flags :: "StringMatchMethod \<Rightarrow> u32" where
  "Flags this = ucast (m_flags this)"

definition op_and :: "StringMatchMethod \<Rightarrow> StringMatchMethodFlag \<Rightarrow> bool" where
  "op_and this aFlag = (m_flags this AND flag_u16 aFlag \<noteq> 0)"

definition MayIgnoreCharacters :: "StringMatchMethod \<Rightarrow> bool" where
  "MayIgnoreCharacters this =
     (m_flags this AND (flag_u16 IgnoreSymbols OR flag_u16 IgnoreWhitespace) \<noteq> 0)"

definition op_eq :: "StringMatchMethod \<Rightarrow> StringMatchMethod \<Rightarrow> bool" where
  "op_eq this aOther = (m_flags this = m_flags aOther)"

definition op_ne :: "StringMatchMethod \<Rightarrow> StringMatchMethod \<Rightarrow> bool" where
  "op_ne this aOther = (m_flags this \<noteq> m_flags aOther)"

text \<open>
  A call of a member function that the header defines, on an object: the model gives the
  object after the call and the value returned. A \<^verbatim>\<open>const\<close> member function cannot
  assign to \<^verbatim>\<open>m_flags\<close>, so the object after the call is the object before it.
\<close>

datatype member_call =
    Call_plus_assign StringMatchMethodFlag
  | Call_minus_assign StringMatchMethodFlag
  | Call_Flags
  | Call_and StringMatchMethodFlag
  | Call_MayIgnoreCharacters
  | Call_eq StringMatchMethod
  | Call_ne StringMatchMethod

datatype returned = Ret_method StringMatchMethod | Ret_uint u32 | Ret_bool bool

fun call :: "StringMatchMethod \<Rightarrow> member_call \<Rightarrow> StringMatchMethod \<times> returned" where
  "call this (Call_plus_assign aFlag) =
     (fst (op_plus_assign this aFlag), Ret_method (snd (op_plus_assign this aFlag)))"
| "call this (Call_minus_assign aFlag) =
     (fst (op_minus_assign this aFlag), Ret_method (snd (op_minus_assign this aFlag)))"
| "call this Call_Flags = (this, Ret_uint (Flags this))"
| "call this (Call_and aFlag) = (this, Ret_bool (op_and this aFlag))"
| "call this Call_MayIgnoreCharacters = (this, Ret_bool (MayIgnoreCharacters this))"
| "call this (Call_eq aOther) = (this, Ret_bool (op_eq this aOther))"
| "call this (Call_ne aOther) = (this, Ret_bool (op_ne this aOther))"

fun assigning :: "member_call \<Rightarrow> bool" where
  "assigning (Call_plus_assign aFlag) = True"
| "assigning (Call_minus_assign aFlag) = True"
| "assigning c = False"

text \<open>
  The values a program builds from declared flags: those the three constructors make, and
  those the two assigning operators leave in an object.
\<close>

inductive StringMatchMethod_value :: "StringMatchMethod \<Rightarrow> bool" where
  value_default: "StringMatchMethod_value StringMatchMethod_default"
| value_flags:
    "declared_flag f1 \<Longrightarrow> declared_flag f2 \<Longrightarrow> declared_flag f3 \<Longrightarrow>
     declared_flag f4 \<Longrightarrow> declared_flag f5 \<Longrightarrow> declared_flag f6 \<Longrightarrow>
     StringMatchMethod_value (StringMatchMethod_flags f1 f2 f3 f4 f5 f6)"
| value_raw: "StringMatchMethod_value (FromFlags aFlags)"
| value_plus:
    "StringMatchMethod_value m \<Longrightarrow> declared_flag aFlag \<Longrightarrow>
     StringMatchMethod_value (fst (op_plus_assign m aFlag))"
| value_minus:
    "StringMatchMethod_value m \<Longrightarrow> StringMatchMethod_value (fst (op_minus_assign m aFlag))"

subsection \<open>Failures, builds and size\_t arithmetic\<close>

text \<open>
  \<^verbatim>\<open>assert\<close> aborts in a debug build and is empty in a release build (\<^verbatim>\<open>NDEBUG\<close>).
  A failed assertion, a \<^verbatim>\<open>memcpy\<close> outside a buffer and a thrown \<^verbatim>\<open>Result\<close> are
  the failures of the model; a \<^verbatim>\<open>Result\<close> is its 32-bit code.
\<close>

datatype build = Debug | Release

datatype failure = AssertionFailed | BadAccess | Thrown u32

definition KErrorUnimplemented :: u32 where
  "KErrorUnimplemented = 7"

text \<open>\<^verbatim>\<open>assert(false)\<close> followed by the rest of the function, \<open>k\<close>.\<close>

definition assert_false :: "build \<Rightarrow> (failure + 'a) \<Rightarrow> failure + 'a" where
  "assert_false b k = (case b of Debug \<Rightarrow> Inl AssertionFailed | Release \<Rightarrow> k)"

text \<open>Sums and differences of \<^verbatim>\<open>size_t\<close> values wrap around at \<open>2 ^ 64\<close>.\<close>

definition size_add :: "nat \<Rightarrow> nat \<Rightarrow> nat" where
  "size_add a b = (a + b) mod 2 ^ 64"

definition size_sub :: "nat \<Rightarrow> nat \<Rightarrow> nat" where
  "size_sub a b = (a + 2 ^ 64 - b mod 2 ^ 64) mod 2 ^ 64"

text \<open>
  \<^verbatim>\<open>memcpy(dst + off, src, n * 2)\<close> on buffers of 16-bit units: \<open>n\<close> units of \<open>src\<close>
  replace the units \<open>off ..< off + n\<close> of \<open>dst\<close>. Both ranges must lie in their buffers;
  the byte count \<open>n * 2\<close> of such a range does not wrap around.
\<close>

definition memcpy :: "u16 list \<Rightarrow> nat \<Rightarrow> u16 list \<Rightarrow> nat \<Rightarrow> failure + u16 list" where
  "memcpy dst off src n =
     (if off + n \<le> length dst \<and> n \<le> length src
      then Inr (take off dst @ take n src @ drop (off + n) dst)
      else Inl BadAccess)"

text \<open>
  The loop \<^verbatim>\<open>while (*p++) aLength++\<close> that measures null-terminated text: the number of
  units before the first zero, and a read outside the buffer if there is no zero.
\<close>

fun measure_z :: "u16 list \<Rightarrow> nat option" where
  "measure_z [] = None"
| "measure_z (x # xs) = (if x = 0 then Some 0 else map_option Suc (measure_z xs))"

subsection \<open>The string classes\<close>

text \<open>
  The four classes derived from \<^verbatim>\<open>MString\<close>. The first field of each is the base
  class member \<^verbatim>\<open>iLength\<close>; the others are the members of the derived class in the
  order of their declaration:
  \<^item> \<open>Text\<close>: \<^verbatim>\<open>iText\<close>, the units readable at the borrowed pointer (none for a null
    pointer);
  \<^item> \<open>WritableTextView\<close>: \<^verbatim>\<open>iText\<close>, the borrowed buffer, and \<^verbatim>\<open>iMaxLength\<close>;
  \<^item> \<open>TextBuffer\<close>: the template argument \<^verbatim>\<open>aMaxLength\<close> and the array \<^verbatim>\<open>iText\<close>;
  \<^item> \<open>String\<close>: the array \<^verbatim>\<open>iOwnText\<close>, the pointer \<^verbatim>\<open>iText\<close>, which is either the
    address of \<^verbatim>\<open>iOwnText\<close> or a buffer on the heap, and \<^verbatim>\<open>iReserved\<close>.
\<close>

datatype text_ptr = OwnText | Heap "u16 list"

datatype MString =
    Text (iLength: nat) "u16 list"
  | WritableTextView (iLength: nat) "u16 list" nat
  | TextBuffer (iLength: nat) nat "u16 list"
  | String (iLength: nat) "u16 list" text_ptr nat

definition KOwnTextLength :: nat where
  "KOwnTextLength = 32"

text \<open>\<^verbatim>\<open>String::String()\<close>: the pointer is set to the zero-initialised inline array.\<close>

definition String_new :: MString where
  "String_new = String 0 (replicate KOwnTextLength 0) OwnText KOwnTextLength"

text \<open>\<^verbatim>\<open>WritableTextView(uint16_t* aText,size_t aLength)\<close>.\<close>

definition WritableTextView_new :: "u16 list \<Rightarrow> nat \<Rightarrow> MString" where
  "WritableTextView_new aText aLength = WritableTextView aLength aText aLength"

text \<open>The virtual functions.\<close>

fun Data :: "MString \<Rightarrow> u16 list" where
  "Data (Text n t) = t"
| "Data (WritableTextView n t m) = t"
| "Data (TextBuffer n c t) = t"
| "Data (String n own OwnText r) = own"
| "Data (String n own (Heap h) r) = h"

fun Writable :: "MString \<Rightarrow> bool" where
  "Writable (Text n t) = False"
| "Writable (WritableTextView n t m) = True"
| "Writable (TextBuffer n c t) = True"
| "Writable (String n own p r) = True"

fun MaxWritableLength :: "MString \<Rightarrow> nat" where
  "MaxWritableLength (Text n t) = 0"
| "MaxWritableLength (WritableTextView n t m) = m"
| "MaxWritableLength (TextBuffer n c t) = c"
| "MaxWritableLength (String n own p r) = r"

text \<open>\<^verbatim>\<open>WritableText()\<close> is null for a \<open>Text\<close>, and the buffer otherwise.\<close>

fun WritableText :: "MString \<Rightarrow> u16 list option" where
  "WritableText (Text n t) = None"
| "WritableText s = Some (Data s)"

text \<open>The object after a write through \<^verbatim>\<open>WritableText()\<close> has left \<open>buf\<close> in its buffer.\<close>

fun written :: "MString \<Rightarrow> u16 list \<Rightarrow> MString" where
  "written (Text n t) buf = Text n t"
| "written (WritableTextView n t m) buf = WritableTextView n buf m"
| "written (TextBuffer n c t) buf = TextBuffer n c buf"
| "written (String n own OwnText r) buf = String n buf OwnText r"
| "written (String n own (Heap h) r) buf = String n own (Heap buf) r"

text \<open>
  Modelled from the spec: \<^verbatim>\<open>String::ResizeBuffer\<close> is declared in the header and its
  body is missing. The spec says that a growable string holds an inline buffer until its
  content exceeds it, then switches to a separate allocation, that a resize may grow or
  shrink, and that a string that has switched never reverts to the inline buffer. In the
  model a length within the reserved capacity only sets the length; a greater one moves
  the text to a new heap buffer of the requested length.
\<close>

definition String_ResizeBuffer ::
  "nat \<Rightarrow> u16 list \<Rightarrow> text_ptr \<Rightarrow> nat \<Rightarrow> nat \<Rightarrow> MString" where
  "String_ResizeBuffer n own p r aNewLength =
     (if aNewLength \<le> r then String aNewLength own p r
      else String aNewLength own
             (Heap (take n (Data (String n own p r)) @ replicate (aNewLength - n) 0))
             aNewLength)"

fun ResizeBuffer :: "build \<Rightarrow> MString \<Rightarrow> nat \<Rightarrow> failure + MString" where
  "ResizeBuffer b (Text n t) aNewLength = assert_false b (Inr (Text n t))"
| "ResizeBuffer b (WritableTextView n t m) aNewLength =
     Inr (WritableTextView (min aNewLength m) t m)"
| "ResizeBuffer b (TextBuffer n c t) aNewLength =
     Inr (TextBuffer (min aNewLength c) c t)"
| "ResizeBuffer b (String n own p r) aNewLength =
     Inr (String_ResizeBuffer n own p r aNewLength)"

text \<open>The text of a string: the first \<^verbatim>\<open>iLength\<close> units at \<^verbatim>\<open>Data()\<close>.\<close>

definition units :: "MString \<Rightarrow> u16 list" where
  "units s = take (iLength s) (Data s)"

subsection \<open>The mutators of MString\<close>

definition Clear :: "build \<Rightarrow> MString \<Rightarrow> failure + MString" where
  "Clear b this =
     (if \<not> Writable this then assert_false b (Inr this)
      else ResizeBuffer b this 0)"

definition SetLengthToZero :: "MString \<Rightarrow> MString" where
  "SetLengthToZero this = (case this of
       Text n t \<Rightarrow> Text 0 t
     | WritableTextView n t m \<Rightarrow> WritableTextView 0 t m
     | TextBuffer n c t \<Rightarrow> TextBuffer 0 c t
     | String n own p r \<Rightarrow> String 0 own p r)"

text \<open>
  \<^verbatim>\<open>memcpy(WritableText() + off,src,n * 2)\<close> on a string object: the copy goes to
  the writable text, which is null for a string that is not writable.
\<close>

definition copy_into :: "MString \<Rightarrow> nat \<Rightarrow> u16 list \<Rightarrow> nat \<Rightarrow> failure + MString" where
  "copy_into this off src n =
     (case WritableText this of
        None \<Rightarrow> Inl BadAccess
      | Some dst \<Rightarrow>
          (case memcpy dst off src n of
             Inl e \<Rightarrow> Inl e
           | Inr buf \<Rightarrow> Inr (written this buf)))"

text \<open>
  \<^verbatim>\<open>Append(const MString&)\<close>: the string is resized to the sum of the two lengths and
  \<^verbatim>\<open>iLength - old_length\<close> units are copied behind the old text.
\<close>

definition Append :: "build \<Rightarrow> MString \<Rightarrow> MString \<Rightarrow> failure + MString" where
  "Append b this aString =
     (if \<not> Writable this then assert_false b (Inr this)
      else let old_length = iLength this in
        case ResizeBuffer b this (size_add (iLength this) (iLength aString)) of
          Inl e \<Rightarrow> Inl e
        | Inr this' \<Rightarrow>
            copy_into this' old_length (Data aString) (size_sub (iLength this') old_length))"

text \<open>
  \<^verbatim>\<open>Set(const MString&)\<close>: the string is resized to the length of the argument and
  \<^verbatim>\<open>iLength\<close> units are copied to its start.
\<close>

definition Set :: "build \<Rightarrow> MString \<Rightarrow> MString \<Rightarrow> failure + MString" where
  "Set b this aString =
     (if \<not> Writable this then assert_false b (Inr this)
      else
        case ResizeBuffer b this (iLength aString) of
          Inl e \<Rightarrow> Inl e
        | Inr this' \<Rightarrow> copy_into this' 0 (Data aString) (iLength this'))"

text \<open>
  \<^verbatim>\<open>Append(const uint16_t*,size_t)\<close> and \<^verbatim>\<open>Set(const uint16_t*,size_t)\<close>: a length
  of \<^const>\<open>npos\<close> is replaced by the measured length of the null-terminated text.
\<close>

definition Append_utf16 :: "build \<Rightarrow> MString \<Rightarrow> u16 list \<Rightarrow> nat \<Rightarrow> failure + MString" where
  "Append_utf16 b this aText aLength =
     (if \<not> Writable this then assert_false b (Inr this)
      else case (if aLength = npos then measure_z aText else Some aLength) of
             None \<Rightarrow> Inl BadAccess
           | Some len \<Rightarrow>
               (let old_length = iLength this in
                case ResizeBuffer b this (size_add (iLength this) len) of
                  Inl e \<Rightarrow> Inl e
                | Inr this' \<Rightarrow>
                    copy_into this' old_length aText (size_sub (iLength this') old_length)))"

definition Set_utf16 :: "build \<Rightarrow> MString \<Rightarrow> u16 list \<Rightarrow> nat \<Rightarrow> failure + MString" where
  "Set_utf16 b this aText aLength =
     (if \<not> Writable this then assert_false b (Inr this)
      else case (if aLength = npos then measure_z aText else Some aLength) of
             None \<Rightarrow> Inl BadAccess
           | Some len \<Rightarrow>
               (case ResizeBuffer b this len of
                  Inl e \<Rightarrow> Inl e
                | Inr this' \<Rightarrow> copy_into this' 0 aText (iLength this')))"

text \<open>
  Modelled from the spec: \<^verbatim>\<open>MString::Replace(size_t,size_t,const uint16_t*,size_t)\<close>
  is declared in the header and its body is missing. The spec says that mutating a
  read-only target is a silent no-op in release builds while debug builds assert, that
  text is mutated through the resize and write primitives, and that inserting text longer
  than a fixed-capacity buffer's remaining room truncates rather than erroring. In the
  model the units \<open>aStart ..< aEnd\<close> of the text are replaced by the new text, the string
  is resized to the length of the result, and as many units of the result as the resized
  string holds are stored. The spec does not describe a range outside the text; the model
  returns it as an access outside the text.
\<close>

definition Replace_utf16 ::
  "build \<Rightarrow> MString \<Rightarrow> nat \<Rightarrow> nat \<Rightarrow> u16 list \<Rightarrow> nat \<Rightarrow> failure + MString" where
  "Replace_utf16 b this aStart aEnd aText aLength =
     (if \<not> Writable this then assert_false b (Inr this)
      else case (if aLength = npos then measure_z aText else Some aLength) of
             None \<Rightarrow> Inl BadAccess
           | Some len \<Rightarrow>
               if aStart \<le> aEnd \<and> aEnd \<le> iLength this \<and> len \<le> length aText
               then
                 (let result = take aStart (units this) @ take len aText @ drop aEnd (units this) in
                  case ResizeBuffer b this (length result) of
                    Inl e \<Rightarrow> Inl e
                  | Inr this' \<Rightarrow> copy_into this' 0 result (iLength this'))
               else Inl BadAccess)"

text \<open>
  \<^verbatim>\<open>Replace(size_t,size_t,const MString&)\<close> and \<^verbatim>\<open>Insert(size_t,const MString&)\<close>,
  which the header defines by calls of the function above.
\<close>

definition Replace :: "build \<Rightarrow> MString \<Rightarrow> nat \<Rightarrow> nat \<Rightarrow> MString \<Rightarrow> failure + MString" where
  "Replace b this aStart aEnd aString =
     Replace_utf16 b this aStart aEnd (Data aString) (iLength aString)"

definition Insert :: "build \<Rightarrow> MString \<Rightarrow> nat \<Rightarrow> MString \<Rightarrow> failure + MString" where
  "Insert b this aIndex aString = Replace b this aIndex aIndex aString"

text \<open>
  The strings with a fixed capacity, and the strings whose fields describe their buffers:
  the length is within the capacity, the capacity within the buffer (a \<open>TextBuffer\<close>'s
  array has exactly \<^verbatim>\<open>aMaxLength\<close> units, the inline array of a \<open>String\<close> exactly
  \<^const>\<open>KOwnTextLength\<close>), and the sizes are \<^verbatim>\<open>size_t\<close> values.
\<close>

fun fixed_capacity :: "MString \<Rightarrow> bool" where
  "fixed_capacity (WritableTextView n t m) = True"
| "fixed_capacity (TextBuffer n c t) = True"
| "fixed_capacity s = False"

fun valid :: "MString \<Rightarrow> bool" where
  "valid (Text n t) = (n \<le> length t \<and> n < 2 ^ 64)"
| "valid (WritableTextView n t m) = (n \<le> m \<and> m \<le> length t \<and> m < 2 ^ 64)"
| "valid (TextBuffer n c t) = (n \<le> c \<and> length t = c \<and> c < 2 ^ 64)"
| "valid (String n own OwnText r) =
     (n \<le> r \<and> r = KOwnTextLength \<and> length own = KOwnTextLength)"
| "valid (String n own (Heap h) r) =
     (n \<le> r \<and> length h = r \<and> r < 2 ^ 64 \<and> length own = KOwnTextLength)"

text \<open>A string whose text is in its inline array: \<^verbatim>\<open>iText == iOwnText\<close>.\<close>

fun uses_own_text :: "MString \<Rightarrow> bool" where
  "uses_own_text (String n own OwnText r) = True"
| "uses_own_text s = False"

text \<open>A sequence of calls of \<^verbatim>\<open>ResizeBuffer\<close>, stopping at the first failure.\<close>

fun resizes :: "build \<Rightarrow> MString \<Rightarrow> nat list \<Rightarrow> failure + MString" where
  "resizes b s [] = Inr s"
| "resizes b s (n # ns) =
     (case ResizeBuffer b s n of Inl e \<Rightarrow> Inl e | Inr s' \<Rightarrow> resizes b s' ns)"

subsection \<open>FoldingIterator\<close>

text \<open>
  The members of a folding iterator. The iterator it reads from is the list of the code
  points that iterator has still to give; code points are \<^verbatim>\<open>int32_t\<close> values.
\<close>

record FoldingIterator =
  iIter :: "int list"
  iStringMatchMethod :: StringMatchMethod
  iFoldAccents :: bool
  iFoldCase :: bool
  iCaseVariant :: "int list"
  iCaseVariantLength :: int
  iCaseVariantIndex :: int

text \<open>\<^verbatim>\<open>Back()\<close> throws; it has no other path.\<close>

definition Back :: "FoldingIterator \<Rightarrow> failure + FoldingIterator" where
  "Back this = Inl (Thrown KErrorUnimplemented)"

subsection \<open>Fuzzy matching\<close>

text \<open>The constant \<^verbatim>\<open>MString::KMaxFuzzyDistance\<close> of the header.\<close>

definition KMaxFuzzyDistance :: int where
  "KMaxFuzzyDistance = 4"

text \<open>
  Modelled from the spec: \<^verbatim>\<open>MString::FuzzyCompare\<close> and \<^verbatim>\<open>MString::FuzzyMatch\<close>
  are declared in the header and their bodies are missing. The spec describes them as a
  bounded edit distance, with insertions, deletions and substitutions weighted equally,
  between two sequences of code points, capped at \<^verbatim>\<open>KMaxFuzzyDistance\<close>, computed by
  dynamic programming, where a value beyond the cap is signalled as ``exceeds'' rather
  than computed exactly; the result is the distance or the boolean ``distance within the
  cap''.

  The model keeps one row of the table of distances between prefixes. An entry beyond the
  cap is stored as \<open>cap + 1\<close>, which stands for ``exceeds''. The first row holds the
  distances from the empty prefix of the first text; \<open>next_row\<close> computes the row for one
  more code point of the first text from the row before: each entry is the least of the
  entry above plus one (a deletion), the entry to the left plus one (an insertion) and the
  entry diagonally above plus the cost of a substitution, which is zero for equal code
  points.
\<close>

definition saturate :: "nat \<Rightarrow> nat \<Rightarrow> nat" where
  "saturate cap d = min d (cap + 1)"

definition first_row :: "nat \<Rightarrow> int list \<Rightarrow> nat list" where
  "first_row cap ys = map (saturate cap) [0..<length ys + 1]"

fun fill_row :: "nat \<Rightarrow> int \<Rightarrow> int list \<Rightarrow> nat \<Rightarrow> nat list \<Rightarrow> nat \<Rightarrow> nat list" where
  "fill_row cap x (y # ys) diag (up # ups) left =
     (let v = saturate cap (min (min (up + 1) (left + 1)) (diag + (if x = y then 0 else 1)))
      in v # fill_row cap x ys up ups v)"
| "fill_row cap x ys diag ups left = []"

fun next_row :: "nat \<Rightarrow> int list \<Rightarrow> nat list \<Rightarrow> int \<Rightarrow> nat list" where
  "next_row cap ys (up # ups) x =
     (let v = saturate cap (up + 1) in v # fill_row cap x ys up ups v)"
| "next_row cap ys [] x = []"

definition capped_distance :: "nat \<Rightarrow> int list \<Rightarrow> int list \<Rightarrow> nat" where
  "capped_distance cap xs ys = last (foldl (next_row cap ys) (first_row cap ys) xs)"

text \<open>
  \<open>FuzzyCompare\<close> gives the distance, or \<open>None\<close> for ``exceeds''; the cap is the
  argument \<open>aMaxDistance\<close>, at most \<^const>\<open>KMaxFuzzyDistance\<close>. \<open>FuzzyMatch\<close> is the
  boolean form.
\<close>

definition FuzzyCompare :: "int list \<Rightarrow> int list \<Rightarrow> int \<Rightarrow> nat option" where
  "FuzzyCompare aIter1 aIter2 aMaxDistance =
     (let cap = min aMaxDistance KMaxFuzzyDistance in
      if cap < 0 then None
      else let d = capped_distance (nat cap) aIter1 aIter2 in
           if d \<le> nat cap then Some d else None)"

definition FuzzyMatch :: "int list \<Rightarrow> int list \<Rightarrow> int \<Rightarrow> bool" where
  "FuzzyMatch aIter1 aIter2 aMaxDistance = (FuzzyCompare aIter1 aIter2 aMaxDistance \<noteq> None)"

text \<open>
  The edit distance the spec refers to, stated twice. \<open>edits n xs ys\<close> holds when \<open>xs\<close>
  can be turned into \<open>ys\<close> by \<open>n\<close> insertions, deletions and substitutions of single
  elements, each counted once; \<open>edit_distance\<close> is the usual recursion for the least such
  number.
\<close>

inductive edits :: "nat \<Rightarrow> 'a list \<Rightarrow> 'a list \<Rightarrow> bool" where
  edits_Nil: "edits 0 [] []"
| edits_keep: "edits n xs ys \<Longrightarrow> edits n (x # xs) (x # ys)"
| edits_subst: "edits n xs ys \<Longrightarrow> edits (Suc n) (x # xs) (y # ys)"
| edits_delete: "edits n xs ys \<Longrightarrow> edits (Suc n) (x # xs) ys"
| edits_insert: "edits n xs ys \<Longrightarrow> edits (Suc n) xs (y # ys)"

fun edit_distance :: "'a list \<Rightarrow> 'a list \<Rightarrow> nat" where
  "edit_distance [] ys = length ys"
| "edit_distance (x # xs) [] = Suc (length xs)"
| "edit_distance (x # xs) (y # ys) =
     min (min (edit_distance xs (y # ys) + 1) (edit_distance (x # xs) ys + 1))
         (edit_distance xs ys + (if x = y then 0 else 1))"

section \<open>Properties\<close>

subsection \<open>The five-way comparison\<close>

lemma Compare_range: "Compare A B \<in> {- 2, - 1, 0, 1, 2}"
  by (induction A B rule: Compare.induct) auto

lemma Compare_refl: "Compare A A = 0"
  by (induction A) auto

lemma Compare_eq_0: "Compare A B = 0 \<longleftrightarrow> A = B"
  by (induction A B rule: Compare.induct) auto

lemma Compare_eq_m1: "Compare A B = - 1 \<longleftrightarrow> strict_prefix A B"
  by (induction A B rule: Compare.induct) auto

lemma Compare_eq_1: "Compare A B = 1 \<longleftrightarrow> strict_prefix B A"
  by (induction A B rule: Compare.induct) auto

lemma Compare_eq_m2:
  "Compare A B = - 2 \<longleftrightarrow> (A, B) \<in> lexord {(x, y). x < y} \<and> \<not> prefix A B"
  by (induction A B rule: Compare.induct) auto

lemma Compare_eq_2:
  "Compare A B = 2 \<longleftrightarrow> (B, A) \<in> lexord {(x, y). x < y} \<and> \<not> prefix B A"
  by (induction A B rule: Compare.induct) auto

text \<open>
  C1. For all strings \<open>A\<close> and \<open>B\<close> the lexicographic compare returns one of the five
  values \<open>-2, -1, 0, 1, 2\<close>: \<open>0\<close> exactly when the code-unit sequences are equal, \<open>-1\<close>
  exactly when \<open>A\<close> is a proper prefix of \<open>B\<close>, \<open>1\<close> exactly when \<open>B\<close> is a proper
  prefix of \<open>A\<close>, \<open>-2\<close> exactly when \<open>A\<close> is lexicographically less than \<open>B\<close> and not a
  prefix of it, \<open>2\<close> exactly when \<open>B\<close> is lexicographically less than \<open>A\<close> and not a
  prefix of it; and comparing a string with itself gives \<open>0\<close>. The order of sequences is
  \<^const>\<open>lexord\<close> over the unsigned order of the code units.
\<close>

theorem Compare_five_way:
  "Compare A B \<in> {- 2, - 1, 0, 1, 2}
   \<and> (Compare A B = 0 \<longleftrightarrow> A = B)
   \<and> (Compare A B = - 1 \<longleftrightarrow> strict_prefix A B)
   \<and> (Compare A B = 1 \<longleftrightarrow> strict_prefix B A)
   \<and> (Compare A B = - 2 \<longleftrightarrow> (A, B) \<in> lexord {(x, y). x < y} \<and> \<not> prefix A B)
   \<and> (Compare A B = 2 \<longleftrightarrow> (B, A) \<in> lexord {(x, y). x < y} \<and> \<not> prefix B A)
   \<and> Compare A A = 0"
  using Compare_range [of A B] Compare_eq_0 [of A B] Compare_eq_m1 [of A B]
    Compare_eq_1 [of A B] Compare_eq_m2 [of A B] Compare_eq_2 [of A B] Compare_refl [of A]
  by blast

subsection \<open>Antisymmetry\<close>

text \<open>
  C7. The five-way compare is antisymmetric under negation: for all strings \<open>A\<close> and
  \<open>B\<close>, \<open>Compare A B = - Compare B A\<close>.
\<close>

theorem Compare_antisym: "Compare A B = - Compare B A"
  by (induction A B rule: Compare.induct) auto

subsection \<open>The UTF-16 pointer overloads\<close>

lemma Compare_z_terminated:
  "0 \<notin> set t \<Longrightarrow> Compare_z A (t @ 0 # rest) = Some (Compare A t)"
  by (induction A t rule: Compare.induct) auto

lemma Compare_n_loop_counted:
  "Compare_n_loop A (t @ rest) (length t) = Some (Compare A t)"
  by (induction A t rule: Compare.induct) auto

text \<open>
  C9. The overload with a length and the null-terminated overload agree. Let \<open>t\<close> be a
  sequence of non-zero units and \<open>L\<close> its length. Comparing a string \<open>A\<close> with the \<open>L\<close>
  units at \<open>t\<close> (whatever follows them in memory) gives the result of comparing \<open>A\<close> with
  \<open>t\<close> followed by a zero unit; passing \<^const>\<open>npos\<close> as the length of the terminated
  text gives that result too; and the result is the one of comparing \<open>A\<close> with the string
  whose units are \<open>t\<close>. The length \<open>L\<close> is a \<^verbatim>\<open>size_t\<close> other than \<^const>\<open>npos\<close>:
  a text of \<open>2 ^ 64 - 1\<close> units and its terminator do not fit in the address space.
\<close>

theorem Compare_overloads_agree:
  assumes "0 \<notin> set t" and "length t < npos"
  shows "Compare_n A (t @ rest) (length t) = Compare_z A (t @ 0 # rest')
         \<and> Compare_n A (t @ 0 # rest') npos = Compare_z A (t @ 0 # rest')
         \<and> Compare_z A (t @ 0 # rest') = Some (Compare A t)"
proof -
  from assms(2) have "length t \<noteq> npos" by simp
  then have "Compare_n A (t @ rest) (length t) = Some (Compare A t)"
    by (simp add: Compare_n_def Compare_n_loop_counted)
  moreover have "Compare_z A (t @ 0 # rest') = Some (Compare A t)"
    using assms(1) by (rule Compare_z_terminated)
  moreover have "Compare_n A (t @ 0 # rest') npos = Compare_z A (t @ 0 # rest')"
    by (simp add: Compare_n_def)
  ultimately show ?thesis by simp
qed

theorem Compare_overloads_agree_witness:
  "(0::u16) \<notin> set [97, 98] \<and> length [97, 98 :: u16] < npos
   \<and> Compare_n [97, 99] ([97, 98] @ [7]) (length [97, 98 :: u16]) = Some 2
   \<and> Compare_n [97, 99] ([97, 98] @ 0 # []) npos = Some 2
   \<and> Compare_z [97, 99] ([97, 98] @ 0 # []) = Some 2"
proof -
  have h1: "(0::u16) \<notin> set [97, 98]" by simp
  have h2: "length [97, 98 :: u16] < npos" by (simp add: npos_def)
  show ?thesis
    using h1 h2 Compare_overloads_agree [OF h1 h2, of "[97, 99]" "[7]" "[]"]
    by simp
qed

subsection \<open>StringMatchMethod\<close>

lemmas flag_defs =
  Exact_def Prefix_def IgnoreSymbols_def FoldAccents_def Fuzzy_def FoldCase_def
  IgnoreWhitespace_def

lemma declared_flag_cases:
  "declared_flag aFlag \<longleftrightarrow>
     aFlag = 0 \<or> aFlag = 1 \<or> aFlag = 2 \<or> aFlag = 4 \<or> aFlag = 8 \<or> aFlag = 16 \<or> aFlag = 32"
  by (auto simp: declared_flag_def flag_defs)

lemma declared_flag_u16:
  "declared_flag aFlag \<Longrightarrow>
     flag_u16 aFlag = 0 \<and> aFlag = Exact \<or> (\<exists>n<16. flag_u16 aFlag = 2 ^ n \<and> aFlag \<noteq> Exact)"
proof -
  assume "declared_flag aFlag"
  then consider "aFlag = 0" | "aFlag = 1" | "aFlag = 2" | "aFlag = 4" | "aFlag = 8"
    | "aFlag = 16" | "aFlag = 32"
    unfolding declared_flag_cases by blast
  then show ?thesis
  proof cases
    case 1 then show ?thesis by (simp add: flag_u16_def Exact_def)
  next
    case 2 then show ?thesis by (auto simp: flag_u16_def Exact_def intro: exI [of _ 0])
  next
    case 3 then show ?thesis by (auto simp: flag_u16_def Exact_def intro: exI [of _ 1])
  next
    case 4 then show ?thesis by (auto simp: flag_u16_def Exact_def intro: exI [of _ 2])
  next
    case 5 then show ?thesis by (auto simp: flag_u16_def Exact_def intro: exI [of _ 3])
  next
    case 6 then show ?thesis by (auto simp: flag_u16_def Exact_def intro: exI [of _ 4])
  next
    case 7 then show ?thesis by (auto simp: flag_u16_def Exact_def intro: exI [of _ 5])
  qed
qed

lemma flag_u16_less: "declared_flag aFlag \<Longrightarrow> flag_u16 aFlag < 64"
  unfolding declared_flag_cases by (auto simp: flag_u16_def)

lemma or_fixed: "(a :: u16) OR b = a \<longleftrightarrow> a AND b = b"
  by (auto simp: bit_eq_iff bit_simps)

lemma andnot_fixed: "(a :: u16) AND NOT b = a \<longleftrightarrow> a AND b = 0"
  by (auto simp: bit_eq_iff bit_simps)

lemma u16_six_bits: "(w :: u16) < 64 \<longleftrightarrow> w AND 63 = w"
proof
  assume "w < 64"
  then show "w AND 63 = w"
    using less_mask_eq [of w 6] by (simp add: mask_eq_exp_minus_1 and.commute)
next
  assume "w AND 63 = w"
  then have "w = w AND mask 6" by (simp add: mask_eq_exp_minus_1)
  then have "w < 2 ^ 6" using and_mask_less' [of 6 w] by simp
  then show "w < 64" by simp
qed

lemma Flags_less: "Flags m < 64 \<longleftrightarrow> m_flags m < 64"
proof -
  have "unat (ucast (m_flags m) :: u32) = unat (m_flags m)"
    by (simp add: unsigned_ucast_eq take_bit_nat_eq_self unsigned_less [THEN less_trans])
  then show ?thesis
    by (simp add: Flags_def word_less_nat_alt)
qed

lemma FromFlags_Flags: "Flags (FromFlags f) = f AND 63"
proof -
  have "(ucast (ucast (f AND mask 6 :: u32) :: u16) :: u32) = f AND mask 6"
    by (rule bit_word_eqI) (auto simp: bit_simps)
  then show ?thesis
    by (simp add: Flags_def FromFlags_def StringMatchMethod_raw_def mask_eq_exp_minus_1)
qed

lemma FromFlags_unat: "unat (Flags (FromFlags f)) = unat f mod 64"
proof -
  have "unat (f AND mask 6) = unat f mod 2 ^ 6"
    by (simp add: take_bit_eq_mask [symmetric] unsigned_take_bit_eq take_bit_eq_mod unat_mod)
  then show ?thesis by (simp add: FromFlags_Flags mask_eq_exp_minus_1)
qed

lemma raw_less: "m_flags (FromFlags f) < 64"
  using Flags_less [of "FromFlags f"] FromFlags_unat [of f]
  by (simp add: word_less_nat_alt)

lemma or_less: "(a::u16) < 64 \<Longrightarrow> b < 64 \<Longrightarrow> a OR b < 64"
  by (simp add: u16_six_bits bit.conj_disj_distrib2)

lemma andnot_less: "(a::u16) < 64 \<Longrightarrow> a AND NOT b < 64"
  by (simp add: u16_six_bits) (metis and.assoc and.commute)

lemma single_bit_or:
  "n < 16 \<Longrightarrow> (w :: u16) OR 2 ^ n = w \<longleftrightarrow> w AND 2 ^ n \<noteq> 0"
  using set_bit_eq_idem_iff [of n w] bit_iff_and_push_bit_not_eq_0 [of w n]
  by (simp add: set_bit_eq_or)

lemma Flags_inj: "Flags a = Flags b \<longleftrightarrow> m_flags a = m_flags b"
proof -
  have "unat (ucast x :: u32) = unat x" for x :: u16
    by (simp add: unsigned_ucast_eq take_bit_nat_eq_self unsigned_less [THEN less_trans])
  then have "(ucast x :: u32) = ucast y \<Longrightarrow> x = y" for x y :: u16
    by (metis word_unat_eq_iff)
  then show ?thesis by (auto simp: Flags_def)
qed

lemma StringMatchMethod_eq_iff: "(a :: StringMatchMethod) = b \<longleftrightarrow> m_flags a = m_flags b"
  by (cases a, cases b) simp

lemma value_less: "StringMatchMethod_value m \<Longrightarrow> m_flags m < 64"
proof (induction rule: StringMatchMethod_value.induct)
  case value_default
  show ?case by (simp add: StringMatchMethod_default_def)
next
  case (value_flags f1 f2 f3 f4 f5 f6)
  then show ?case by (simp add: StringMatchMethod_flags_def or_less flag_u16_less)
next
  case (value_raw aFlags)
  show ?case by (rule raw_less)
next
  case (value_plus m aFlag)
  then show ?case by (simp add: op_plus_assign_def Let_def or_less flag_u16_less)
next
  case (value_minus m aFlag)
  then show ?case by (simp add: op_minus_assign_def Let_def andnot_less)
qed

lemma plus_assign_fixed:
  "fst (op_plus_assign m aFlag) = m \<longleftrightarrow> m_flags m AND flag_u16 aFlag = flag_u16 aFlag"
  by (cases m) (simp add: op_plus_assign_def Let_def or_fixed)

lemma minus_assign_fixed:
  "fst (op_minus_assign m aFlag) = m \<longleftrightarrow> \<not> op_and m aFlag"
  by (cases m) (simp add: op_minus_assign_def Let_def op_and_def andnot_fixed)

lemma plus_assign_fixed_declared:
  assumes "declared_flag aFlag"
  shows "fst (op_plus_assign m aFlag) = m \<longleftrightarrow> aFlag = Exact \<or> op_and m aFlag"
proof -
  from declared_flag_u16 [OF assms] consider
    "flag_u16 aFlag = 0" "aFlag = Exact"
    | n where "n < 16" "flag_u16 aFlag = 2 ^ n" "aFlag \<noteq> Exact" by blast
  then show ?thesis
  proof cases
    case 1
    then show ?thesis by (simp add: plus_assign_fixed)
  next
    case 2
    have "m_flags m AND 2 ^ n = 2 ^ n \<longleftrightarrow> m_flags m AND 2 ^ n \<noteq> 0"
      using single_bit_or [OF 2(1), of "m_flags m"] or_fixed [of "m_flags m" "2 ^ n"] by simp
    with 2 show ?thesis by (simp add: plus_assign_fixed op_and_def)
  qed
qed

lemma call_const: "\<not> assigning c \<Longrightarrow> fst (call m c) = m"
  by (cases c) simp_all

lemma flags_less:
  assumes "declared_flag f1" "declared_flag f2" "declared_flag f3"
    "declared_flag f4" "declared_flag f5" "declared_flag f6"
  shows "Flags (StringMatchMethod_flags f1 f2 f3 f4 f5 f6) < 64"
  using assms by (simp add: Flags_less StringMatchMethod_flags_def or_less flag_u16_less)

text \<open>
  C5. As stated (no operation changes an existing object in place) the claim fails on the
  code: \<^verbatim>\<open>operator+=\<close> and \<^verbatim>\<open>operator-=\<close> assign to the flags of the object
  they are called on. After \<^verbatim>\<open>m += Prefix\<close> on a default-constructed method the object
  is no longer the one it was.
\<close>

theorem StringMatchMethod_mutated_counterexample:
  "fst (op_plus_assign StringMatchMethod_default Prefix) \<noteq> StringMatchMethod_default"
  by (simp add: op_plus_assign_def StringMatchMethod_default_def Let_def flag_u16_def Prefix_def)

text \<open>
  C5, amended. A method is a value holding a flag set given at construction: the default
  constructor gives no flags; the constructor from a raw bit pattern keeps the low six
  bits, so its flags are below \<open>64\<close>; the constructor from up to six flags gives the union
  of their bits, below \<open>64\<close> for declared flags. Equality is bitwise on the flags: two
  methods are equal exactly when their flags are, and \<^verbatim>\<open>!=\<close> is the negation.
  The method is not immutable. The two assigning operators change the object in place and
  return a copy of the changed object: \<^verbatim>\<open>+=\<close> sets the bits of its flag and leaves the
  object as it was exactly when all of them are set already (for a declared flag: when the
  flag is \<open>Exact\<close> or \<^verbatim>\<open>operator&\<close> holds of it); \<^verbatim>\<open>-=\<close> clears the bits of its
  flag and leaves the object as it was exactly when \<^verbatim>\<open>operator&\<close> does not hold of it.
  Every other member function that the header defines (\<^verbatim>\<open>Flags\<close>, \<^verbatim>\<open>operator&\<close>,
  \<^verbatim>\<open>MayIgnoreCharacters\<close>, \<^verbatim>\<open>operator==\<close>, \<^verbatim>\<open>operator!=\<close>) leaves the object as it
  was.
\<close>

theorem StringMatchMethod_assign_in_place:
  "Flags StringMatchMethod_default = 0
   \<and> Flags (FromFlags f) = f AND 63
   \<and> Flags (FromFlags f) < 64
   \<and> m_flags (StringMatchMethod_flags f1 f2 f3 f4 f5 f6) =
        flag_u16 f1 OR flag_u16 f2 OR flag_u16 f3 OR flag_u16 f4 OR flag_u16 f5 OR flag_u16 f6
   \<and> (declared_flag f1 \<and> declared_flag f2 \<and> declared_flag f3 \<and> declared_flag f4
        \<and> declared_flag f5 \<and> declared_flag f6 \<longrightarrow>
        Flags (StringMatchMethod_flags f1 f2 f3 f4 f5 f6) < 64)
   \<and> (op_eq a b \<longleftrightarrow> Flags a = Flags b)
   \<and> (op_eq a b \<longleftrightarrow> a = b)
   \<and> (op_ne a b \<longleftrightarrow> \<not> op_eq a b)
   \<and> m_flags (fst (op_plus_assign m aFlag)) = m_flags m OR flag_u16 aFlag
   \<and> m_flags (fst (op_minus_assign m aFlag)) = m_flags m AND NOT (flag_u16 aFlag)
   \<and> snd (op_plus_assign m aFlag) = fst (op_plus_assign m aFlag)
   \<and> snd (op_minus_assign m aFlag) = fst (op_minus_assign m aFlag)
   \<and> (fst (op_plus_assign m aFlag) = m \<longleftrightarrow> m_flags m AND flag_u16 aFlag = flag_u16 aFlag)
   \<and> (declared_flag aFlag \<longrightarrow>
        (fst (op_plus_assign m aFlag) = m \<longleftrightarrow> aFlag = Exact \<or> op_and m aFlag))
   \<and> (fst (op_minus_assign m aFlag) = m \<longleftrightarrow> \<not> op_and m aFlag)
   \<and> (\<not> assigning c \<longrightarrow> fst (call m c) = m)"
proof -
  have 1: "Flags StringMatchMethod_default = 0"
    by (simp add: Flags_def StringMatchMethod_default_def)
  have 2: "Flags (FromFlags f) < 64"
    using raw_less [of f] by (simp add: Flags_less)
  have 3: "(op_eq a b \<longleftrightarrow> Flags a = Flags b) \<and> (op_eq a b \<longleftrightarrow> a = b)
           \<and> (op_ne a b \<longleftrightarrow> \<not> op_eq a b)"
    using Flags_inj [of a b] StringMatchMethod_eq_iff [of a b]
    by (simp add: op_eq_def op_ne_def)
  have 4: "m_flags (fst (op_plus_assign m aFlag)) = m_flags m OR flag_u16 aFlag
           \<and> m_flags (fst (op_minus_assign m aFlag)) = m_flags m AND NOT (flag_u16 aFlag)
           \<and> snd (op_plus_assign m aFlag) = fst (op_plus_assign m aFlag)
           \<and> snd (op_minus_assign m aFlag) = fst (op_minus_assign m aFlag)"
    by (simp add: op_plus_assign_def op_minus_assign_def Let_def)
  have 5: "m_flags (StringMatchMethod_flags f1 f2 f3 f4 f5 f6) =
        flag_u16 f1 OR flag_u16 f2 OR flag_u16 f3 OR flag_u16 f4 OR flag_u16 f5 OR flag_u16 f6"
    by (simp add: StringMatchMethod_flags_def)
  from 1 2 3 4 5 FromFlags_Flags [of f] flags_less [of f1 f2 f3 f4 f5 f6]
    plus_assign_fixed [of m aFlag] plus_assign_fixed_declared [of aFlag m]
    minus_assign_fixed [of m aFlag] call_const [of c m]
  show ?thesis by blast
qed

theorem StringMatchMethod_assign_in_place_witness:
  "declared_flag Prefix \<and> declared_flag FoldCase \<and> declared_flag Exact
   \<and> Flags (StringMatchMethod_flags Prefix FoldCase Exact Exact Exact Exact) < 64
   \<and> fst (op_plus_assign (FromFlags 1) Prefix) = FromFlags 1
   \<and> op_and (FromFlags 1) Prefix
   \<and> fst (call (FromFlags 1) (Call_and Prefix)) = FromFlags 1"
proof -
  have d: "declared_flag Prefix" "declared_flag FoldCase" "declared_flag Exact"
    by (simp_all add: declared_flag_def)
  have n: "\<not> assigning (Call_and Prefix)" by simp
  have a: "op_and (FromFlags 1) Prefix"
    by (simp add: op_and_def FromFlags_def StringMatchMethod_raw_def flag_u16_def Prefix_def)
  show ?thesis
    using d n a StringMatchMethod_assign_in_place
      [of 1 Prefix FoldCase Exact Exact Exact Exact "FromFlags 1" "FromFlags 1" "FromFlags 1"
        Prefix "Call_and Prefix"]
    by simp
qed

text \<open>
  C10. As stated (the bound is preserved by the flag-adding operator) the claim fails on
  the code: \<^verbatim>\<open>operator+=\<close> does not mask, and the flag type admits values that are not
  declared enumerators. On \<^verbatim>\<open>FromFlags(8)\<close>, whose flags are \<open>8\<close>, adding the flag
  value \<open>64\<close> gives the flags \<open>72\<close>.
\<close>

theorem StringMatchMethod_plus_assign_counterexample:
  "Flags (FromFlags 8) < 64 \<and> Flags (fst (op_plus_assign (FromFlags 8) 64)) = 72
   \<and> \<not> Flags (fst (op_plus_assign (FromFlags 8) 64)) < 64"
  by (simp add: Flags_def FromFlags_def StringMatchMethod_raw_def op_plus_assign_def Let_def
      flag_u16_def)

text \<open>
  C10, amended. \<^verbatim>\<open>FromFlags\<close> masks the raw pattern with \<open>63\<close>, so the flags it gives
  are the pattern modulo \<open>64\<close> and below \<open>64\<close>; the default constructor gives \<open>0\<close>.
  \<^verbatim>\<open>operator-=\<close> takes an object with flags below \<open>64\<close> to one with flags below \<open>64\<close>
  for every flag. \<^verbatim>\<open>operator+=\<close> gives the old flags with the low 16 bits of the flag
  value set; it keeps the flags below \<open>64\<close> when that conversion of the flag is below
  \<open>64\<close>, as it is for each declared enumerator. So every value built by the constructors
  and by the two operators from declared flags has flags below \<open>64\<close>.
\<close>

theorem StringMatchMethod_six_bits:
  "unat (Flags (FromFlags f)) = unat f mod 64
   \<and> Flags (FromFlags f) < 64
   \<and> Flags StringMatchMethod_default = 0
   \<and> Flags (fst (op_plus_assign m aFlag)) = Flags m OR ucast (flag_u16 aFlag)
   \<and> (Flags m < 64 \<longrightarrow> Flags (fst (op_minus_assign m aFlag)) < 64)
   \<and> (declared_flag aFlag \<longrightarrow> flag_u16 aFlag < 64)
   \<and> (Flags m < 64 \<and> flag_u16 aFlag < 64 \<longrightarrow> Flags (fst (op_plus_assign m aFlag)) < 64)
   \<and> (StringMatchMethod_value m \<longrightarrow> Flags m < 64)"
proof -
  have 1: "Flags (fst (op_plus_assign m aFlag)) < 64" if "Flags m < 64" "flag_u16 aFlag < 64"
    using that by (simp add: Flags_less op_plus_assign_def Let_def or_less)
  have 2: "Flags (fst (op_minus_assign m aFlag)) < 64" if "Flags m < 64"
    using that by (simp add: Flags_less op_minus_assign_def Let_def andnot_less)
  have 3: "Flags (FromFlags f) < 64"
    using raw_less [of f] by (simp add: Flags_less)
  have 4: "Flags StringMatchMethod_default = 0"
    by (simp add: Flags_def StringMatchMethod_default_def)
  have 5: "Flags (fst (op_plus_assign m aFlag)) = Flags m OR ucast (flag_u16 aFlag)"
    by (simp add: Flags_def op_plus_assign_def Let_def) (rule bit_word_eqI, auto simp: bit_simps)
  from 1 2 3 4 5 FromFlags_unat [of f] flag_u16_less [of aFlag] value_less [of m]
    Flags_less [of m]
  show ?thesis by blast
qed

theorem StringMatchMethod_six_bits_witness:
  "StringMatchMethod_value (fst (op_plus_assign (FromFlags 200) FoldCase))
   \<and> declared_flag Prefix
   \<and> unat (Flags (FromFlags 200)) = 8
   \<and> Flags (fst (op_plus_assign (FromFlags 200) FoldCase)) < 64
   \<and> flag_u16 Prefix < 64
   \<and> Flags (fst (op_plus_assign (fst (op_plus_assign (FromFlags 200) FoldCase)) Prefix)) < 64
   \<and> Flags (fst (op_minus_assign (fst (op_plus_assign (FromFlags 200) FoldCase)) Prefix)) < 64"
proof -
  have d: "declared_flag FoldCase" "declared_flag Prefix" by (simp_all add: declared_flag_def)
  have v: "StringMatchMethod_value (fst (op_plus_assign (FromFlags 200) FoldCase))"
    by (intro value_plus value_raw d)
  let ?m = "fst (op_plus_assign (FromFlags 200) FoldCase)"
  note t = StringMatchMethod_six_bits [of 200 ?m Prefix]
  note t4 = t [THEN conjunct2, THEN conjunct2, THEN conjunct2, THEN conjunct2]
  note t6 = t4 [THEN conjunct2, THEN conjunct2]
  from t have "unat (Flags (FromFlags 200)) = unat (200 :: u32) mod 64" by (rule conjunct1)
  then have 1: "unat (Flags (FromFlags 200)) = 8" by simp
  have 2: "Flags ?m < 64" using t6 [THEN conjunct2] v by (rule mp)
  have 3: "Flags (fst (op_minus_assign ?m Prefix)) < 64" using t4 [THEN conjunct1] 2 by (rule mp)
  have 4: "flag_u16 Prefix < 64" using t4 [THEN conjunct2, THEN conjunct1] d(2) by (rule mp)
  have 5: "Flags (fst (op_plus_assign ?m Prefix)) < 64"
    using t6 [THEN conjunct1] conjI [OF 2 4] by (rule mp)
  from v d(2) 1 2 4 5 3 show ?thesis by (intro conjI)
qed

subsection \<open>Strings that are not writable\<close>

lemma not_Writable_Debug:
  "\<not> Writable s \<Longrightarrow>
   Clear Debug s = Inl AssertionFailed \<and> Append Debug s a = Inl AssertionFailed
   \<and> Set Debug s a = Inl AssertionFailed"
  by (simp add: Clear_def Append_def Set_def assert_false_def)

text \<open>
  C3. A \<open>Text\<close> is never writable, and on every string that is not writable the
  mutators \<^verbatim>\<open>Clear\<close>, \<^verbatim>\<open>Append\<close> and \<^verbatim>\<open>Set\<close> (with a string argument or with
  UTF-16 text and a length), and \<^verbatim>\<open>ResizeBuffer\<close> itself, return normally in a release
  build and leave the whole object, so its length and its text, as it was.
\<close>

theorem not_Writable_no_op:
  "\<not> Writable (Text n t)
   \<and> (\<not> Writable s \<longrightarrow>
        Clear Release s = Inr s
        \<and> Append Release s a = Inr s
        \<and> Set Release s a = Inr s
        \<and> Append_utf16 Release s aText aLength = Inr s
        \<and> Set_utf16 Release s aText aLength = Inr s
        \<and> ResizeBuffer Release s aNewLength = Inr s)"
  by (cases s)
    (simp_all add: Clear_def Append_def Set_def Append_utf16_def Set_utf16_def assert_false_def)

theorem not_Writable_no_op_witness:
  "\<not> Writable (Text 2 [97, 98])
   \<and> Clear Release (Text 2 [97, 98]) = Inr (Text 2 [97, 98])
   \<and> Append Release (Text 2 [97, 98]) (Text 1 [99]) = Inr (Text 2 [97, 98])
   \<and> Set Release (Text 2 [97, 98]) (Text 1 [99]) = Inr (Text 2 [97, 98])
   \<and> Append_utf16 Release (Text 2 [97, 98]) [99, 0] npos = Inr (Text 2 [97, 98])
   \<and> Set_utf16 Release (Text 2 [97, 98]) [99, 0] npos = Inr (Text 2 [97, 98])
   \<and> ResizeBuffer Release (Text 2 [97, 98]) 0 = Inr (Text 2 [97, 98])"
  using not_Writable_no_op [of 2 "[97, 98]" "Text 2 [97, 98]" "Text 1 [99]" "[99, 0]" npos 0]
  by simp

subsection \<open>Strings with a fixed capacity\<close>

lemma wrap_sub: "b \<le> a \<Longrightarrow> a < K \<Longrightarrow> (a + K - b mod K) mod K = a - (b::nat)"
proof -
  assume h: "b \<le> a" "a < K"
  then have "b mod K = b" and "a + K - b = (a - b) + K" and "a - b < K" by simp_all
  then show ?thesis by (simp only: mod_add_self2 mod_less)
qed

lemma size_sub_exact: "b \<le> a \<Longrightarrow> a < 2 ^ 64 \<Longrightarrow> size_sub a b = a - b"
  unfolding size_sub_def by (rule wrap_sub)

lemma size_add_exact: "a + b < 2 ^ 64 \<Longrightarrow> size_add a b = a + b"
  by (simp add: size_add_def)

lemma valid_WritableTextView_new:
  "aLength \<le> length aText \<Longrightarrow> aLength < 2 ^ 64 \<Longrightarrow>
   valid (WritableTextView_new aText aLength) \<and> fixed_capacity (WritableTextView_new aText aLength)"
  by (simp add: WritableTextView_new_def)

lemma valid_SetLengthToZero: "valid s \<Longrightarrow> valid (SetLengthToZero s)"
  by (cases s rule: valid.cases) (simp_all add: SetLengthToZero_def)

lemma fixed_capacity_Writable: "fixed_capacity s \<Longrightarrow> Writable s"
  by (cases s) simp_all

lemma valid_fixed:
  "fixed_capacity s \<Longrightarrow> valid s \<Longrightarrow>
   iLength s \<le> MaxWritableLength s \<and> MaxWritableLength s \<le> length (Data s)
     \<and> MaxWritableLength s < 2 ^ 64"
  by (cases s) auto

lemma resize_fixed:
  "fixed_capacity s \<Longrightarrow>
   \<exists>s'. ResizeBuffer b s n = Inr s' \<and> iLength s' = min n (MaxWritableLength s)
        \<and> MaxWritableLength s' = MaxWritableLength s \<and> Data s' = Data s
        \<and> fixed_capacity s' \<and> (valid s \<longrightarrow> valid s')"
  by (cases s) simp_all

lemma copy_into_fixed:
  assumes "fixed_capacity s" "iLength s = off + cnt" "iLength s \<le> length (Data s)"
    "cnt \<le> length src"
  shows "\<exists>s'. copy_into s off src cnt = Inr s'
          \<and> iLength s' = iLength s
          \<and> MaxWritableLength s' = MaxWritableLength s
          \<and> fixed_capacity s' \<and> (valid s \<longrightarrow> valid s')
          \<and> units s' = take off (Data s) @ take cnt src"
proof (cases s)
  case (WritableTextView n t m)
  with assms have "n = off + cnt" "off + cnt \<le> length t" "cnt \<le> length src" by simp_all
  then show ?thesis
    unfolding WritableTextView by (simp add: copy_into_def memcpy_def units_def)
next
  case (TextBuffer n c t)
  with assms have "n = off + cnt" "off + cnt \<le> length t" "cnt \<le> length src" by simp_all
  then show ?thesis
    unfolding TextBuffer by (simp add: copy_into_def memcpy_def units_def)
qed (use assms in simp_all)

lemma append_fixed:
  assumes fx: "fixed_capacity s" and vs: "valid s"
    and va: "iLength a \<le> length (Data a)" and sz: "iLength s + iLength a < 2 ^ 64"
  shows "\<exists>s'. Append b s a = Inr s'
          \<and> iLength s' = min (iLength s + iLength a) (MaxWritableLength s)
          \<and> units s' = take (MaxWritableLength s) (units s @ units a)
          \<and> MaxWritableLength s' = MaxWritableLength s
          \<and> fixed_capacity s' \<and> valid s'"
proof -
  define n where "n = iLength s"
  define c where "c = MaxWritableLength s"
  define la where "la = iLength a"
  define k where "k = min (n + la) c"
  from valid_fixed [OF fx vs] have nc: "n \<le> c" and cl: "c \<le> length (Data s)"
    and c64: "c < 2 ^ 64" by (simp_all add: n_def c_def)
  from resize_fixed [OF fx, of b "n + la"] vs obtain s1 where
    r: "ResizeBuffer b s (n + la) = Inr s1" and l1: "iLength s1 = k"
    and d1: "Data s1 = Data s" and m1: "MaxWritableLength s1 = c"
    and f1: "fixed_capacity s1" and v1: "valid s1"
    by (auto simp: k_def c_def)
  have kn: "n \<le> k" and kc: "k \<le> c" using nc by (simp_all add: k_def)
  have sub: "size_sub k n = k - n"
    using kn kc c64 by (intro size_sub_exact) simp_all
  have cnt: "k - n \<le> length (Data a)" using va by (simp add: k_def la_def)
  from copy_into_fixed [OF f1, of n "k - n" "Data a"] kn kc cl cnt l1 d1 v1 m1
  obtain s2 where
    cp: "copy_into s1 n (Data a) (k - n) = Inr s2" and l2: "iLength s2 = k"
    and m2: "MaxWritableLength s2 = c" and f2: "fixed_capacity s2" and v2: "valid s2"
    and u2: "units s2 = take n (Data s) @ take (k - n) (Data a)"
    by auto
  have app: "Append b s a = Inr s2"
    using sz
    by (simp add: Append_def fixed_capacity_Writable [OF fx] size_add_exact
        n_def [symmetric] la_def [symmetric] r l1 sub cp)
  have ln: "length (take n (Data s)) = n" using nc cl by simp
  have "take c (units s @ units a) = take n (Data s) @ take (c - n) (take la (Data a))"
    using ln nc by (simp add: units_def n_def [symmetric] la_def [symmetric] min_absorb2)
  also have "take (c - n) (take la (Data a)) = take (k - n) (Data a)"
  proof -
    have "k - n = min (c - n) la" using nc unfolding k_def by linarith
    then show ?thesis by simp
  qed
  finally have "units s2 = take c (units s @ units a)" using u2 by simp
  with app l2 m2 f2 v2 show ?thesis
    by (simp add: k_def n_def la_def c_def)
qed

lemma insert_fixed:
  assumes fx: "fixed_capacity s" and vs: "valid s"
    and va: "iLength a \<le> length (Data a)" and sz: "iLength a < npos"
    and i: "i \<le> iLength s"
  shows "\<exists>s'. Insert b s i a = Inr s'
          \<and> iLength s' = min (iLength s + iLength a) (MaxWritableLength s)
          \<and> units s' = take (MaxWritableLength s) (take i (units s) @ units a @ drop i (units s))
          \<and> MaxWritableLength s' = MaxWritableLength s
          \<and> fixed_capacity s' \<and> valid s'"
proof -
  define n where "n = iLength s"
  define c where "c = MaxWritableLength s"
  define la where "la = iLength a"
  define k where "k = min (n + la) c"
  define res where "res = take i (units s) @ take la (Data a) @ drop i (units s)"
  from valid_fixed [OF fx vs] have nc: "n \<le> c" and cl: "c \<le> length (Data s)"
    by (simp_all add: n_def c_def)
  have lu: "length (units s) = n" using nc cl by (simp add: units_def n_def)
  have lr: "length res = n + la" using lu i va by (simp add: res_def n_def la_def)
  from resize_fixed [OF fx, of b "n + la"] vs obtain s1 where
    r: "ResizeBuffer b s (n + la) = Inr s1" and l1: "iLength s1 = k"
    and d1: "Data s1 = Data s" and m1: "MaxWritableLength s1 = c"
    and f1: "fixed_capacity s1" and v1: "valid s1"
    by (auto simp: k_def c_def)
  have kc: "k \<le> c" and kr: "k \<le> length res" by (simp_all add: k_def lr)
  from copy_into_fixed [OF f1, of 0 k res] kc cl kr l1 d1 v1 m1
  obtain s2 where
    cp: "copy_into s1 0 res k = Inr s2" and l2: "iLength s2 = k"
    and m2: "MaxWritableLength s2 = c" and f2: "fixed_capacity s2" and v2: "valid s2"
    and u2: "units s2 = take k res"
    by auto
  have ins: "Insert b s i a = Inr s2"
    using sz i va
    by (simp add: Insert_def Replace_def Replace_utf16_def fixed_capacity_Writable [OF fx]
        la_def [symmetric] res_def [symmetric] Let_def lr r l1 cp)
  have "take k res = take c res" by (simp add: k_def lr [symmetric] min_def)
  moreover have "res = take i (units s) @ units a @ drop i (units s)"
    by (simp add: res_def units_def la_def)
  ultimately have "units s2 = take c (take i (units s) @ units a @ drop i (units s))"
    using u2 by simp
  with ins l2 m2 f2 v2 show ?thesis
    by (simp add: k_def n_def la_def c_def)
qed

text \<open>
  C4. For a string with a fixed capacity (a \<open>WritableTextView\<close> or a \<open>TextBuffer\<close>) a
  resize to any requested length succeeds and sets the length to the minimum of the
  request and the capacity, so the length does not exceed the capacity, and the capacity
  stays. When the fields of the string describe its buffer and the argument's length lies
  within its data, appending succeeds and stores the old text followed by the new text,
  cut off at the capacity; inserting at an index within the text succeeds and stores the
  text with the new text inserted, cut off at the capacity. No call reports an error, in
  either build. (The sum of the two lengths is a \<^verbatim>\<open>size_t\<close> below \<^const>\<open>npos\<close>.)
\<close>

theorem fixed_capacity_truncates:
  assumes "fixed_capacity s"
  shows "(\<exists>s'. ResizeBuffer b s n = Inr s'
            \<and> iLength s' = min n (MaxWritableLength s)
            \<and> iLength s' \<le> MaxWritableLength s'
            \<and> MaxWritableLength s' = MaxWritableLength s)
         \<and> (valid s \<and> iLength a \<le> length (Data a) \<and> iLength s + iLength a < npos \<longrightarrow>
              (\<exists>s'. Append b s a = Inr s'
                 \<and> iLength s' = min (iLength s + iLength a) (MaxWritableLength s)
                 \<and> units s' = take (MaxWritableLength s) (units s @ units a)
                 \<and> MaxWritableLength s' = MaxWritableLength s
                 \<and> fixed_capacity s' \<and> valid s')
              \<and> (i \<le> iLength s \<longrightarrow>
                   (\<exists>s'. Insert b s i a = Inr s'
                      \<and> iLength s' = min (iLength s + iLength a) (MaxWritableLength s)
                      \<and> units s' =
                          take (MaxWritableLength s) (take i (units s) @ units a @ drop i (units s))
                      \<and> MaxWritableLength s' = MaxWritableLength s
                      \<and> fixed_capacity s' \<and> valid s')))"
proof -
  have 1: "\<exists>s'. ResizeBuffer b s n = Inr s'
            \<and> iLength s' = min n (MaxWritableLength s)
            \<and> iLength s' \<le> MaxWritableLength s'
            \<and> MaxWritableLength s' = MaxWritableLength s"
    using resize_fixed [OF assms, of b n] by auto
  have 2: "\<exists>s'. Append b s a = Inr s'
                 \<and> iLength s' = min (iLength s + iLength a) (MaxWritableLength s)
                 \<and> units s' = take (MaxWritableLength s) (units s @ units a)
                 \<and> MaxWritableLength s' = MaxWritableLength s
                 \<and> fixed_capacity s' \<and> valid s'"
    if "valid s" "iLength a \<le> length (Data a)" "iLength s + iLength a < npos"
  proof -
    from that(3) have "iLength s + iLength a < 2 ^ 64" by (simp add: npos_def)
    from append_fixed [OF assms that(1,2) this] show ?thesis .
  qed
  have 3: "\<exists>s'. Insert b s i a = Inr s'
                      \<and> iLength s' = min (iLength s + iLength a) (MaxWritableLength s)
                      \<and> units s' =
                          take (MaxWritableLength s) (take i (units s) @ units a @ drop i (units s))
                      \<and> MaxWritableLength s' = MaxWritableLength s
                      \<and> fixed_capacity s' \<and> valid s'"
    if "valid s" "iLength a \<le> length (Data a)" "iLength s + iLength a < npos" "i \<le> iLength s"
  proof -
    from that(3) have "iLength a < npos" by simp
    from insert_fixed [OF assms that(1,2) this that(4)] show ?thesis .
  qed
  from 1 2 3 show ?thesis by blast
qed

theorem fixed_capacity_truncates_witness:
  "fixed_capacity (TextBuffer 3 4 [97, 98, 99, 0])
   \<and> valid (TextBuffer 3 4 [97, 98, 99, 0])
   \<and> iLength (Text 3 [100, 101, 102]) \<le> length (Data (Text 3 [100, 101, 102]))
   \<and> iLength (TextBuffer 3 4 [97, 98, 99, 0]) + iLength (Text 3 [100, 101, 102]) < npos
   \<and> 1 \<le> iLength (TextBuffer 3 4 [97, 98, 99, 0])
   \<and> ResizeBuffer Release (TextBuffer 3 4 [97, 98, 99, 0]) 9
       = Inr (TextBuffer 4 4 [97, 98, 99, 0])
   \<and> Append Release (TextBuffer 3 4 [97, 98, 99, 0]) (Text 3 [100, 101, 102])
       = Inr (TextBuffer 4 4 [97, 98, 99, 100])
   \<and> Insert Release (TextBuffer 3 4 [97, 98, 99, 0]) 1 (Text 3 [100, 101, 102])
       = Inr (TextBuffer 4 4 [97, 100, 101, 102])"
proof -
  have h: "fixed_capacity (TextBuffer 3 4 [97, 98, 99, 0])" by simp
  show ?thesis
    using fixed_capacity_truncates
      [OF h, of Release 9 "Text 3 [100, 101, 102]" 1]
    by (simp add: npos_def Append_def Insert_def Replace_def Replace_utf16_def units_def
        size_add_def size_sub_def copy_into_def memcpy_def)
qed

subsection \<open>The inline buffer of a String\<close>

lemma String_new_facts:
  "uses_own_text String_new" "MaxWritableLength String_new = 32" "iLength String_new = 0"
  "length (Data String_new) = 32" "valid String_new" "Writable String_new"
  by (simp_all add: String_new_def KOwnTextLength_def)

lemma resize_inline:
  assumes "uses_own_text s" "MaxWritableLength s = 32" "n \<le> 32"
  shows "\<exists>s'. ResizeBuffer b s n = Inr s' \<and> uses_own_text s' \<and> MaxWritableLength s' = 32
          \<and> iLength s' = n \<and> Data s' = Data s"
  using assms by (cases s rule: uses_own_text.cases) (simp_all add: String_ResizeBuffer_def)

lemma resize_beyond:
  assumes "uses_own_text s" "MaxWritableLength s = 32" "32 < n"
  shows "\<exists>s'. ResizeBuffer b s n = Inr s' \<and> \<not> uses_own_text s' \<and> iLength s' = n"
  using assms by (cases s rule: uses_own_text.cases) (simp_all add: String_ResizeBuffer_def)

lemma resizes_inline:
  assumes "\<forall>n\<in>set ns. n \<le> 32" "uses_own_text s" "MaxWritableLength s = 32"
  shows "\<exists>s'. resizes b s ns = Inr s' \<and> uses_own_text s' \<and> MaxWritableLength s' = 32
          \<and> iLength s' = last (iLength s # ns)"
  using assms
proof (induction ns arbitrary: s)
  case Nil
  then show ?case by simp
next
  case (Cons n ns)
  then have "n \<le> 32" by simp
  from resize_inline [OF Cons.prems(2,3) this, of b] obtain s1 where
    s1: "ResizeBuffer b s n = Inr s1" "uses_own_text s1" "MaxWritableLength s1 = 32"
      "iLength s1 = n" by blast
  from Cons.prems(1) have "\<forall>n\<in>set ns. n \<le> 32" by simp
  from Cons.IH [OF this s1(2,3)] obtain s2 where
    "resizes b s1 ns = Inr s2" "uses_own_text s2" "MaxWritableLength s2 = 32"
    "iLength s2 = last (iLength s1 # ns)" by blast
  with s1 show ?case by simp
qed

lemma resizes_append:
  "resizes b s ns = Inr s1 \<Longrightarrow> resizes b s (ns @ [n]) = ResizeBuffer b s1 n"
  by (induction ns arbitrary: s) (auto split: sum.splits)

lemma append_fresh:
  assumes "iLength a \<le> 32" "iLength a \<le> length (Data a)"
  shows "\<exists>s. Append b String_new a = Inr s \<and> uses_own_text s \<and> MaxWritableLength s = 32
          \<and> units s = units a"
proof -
  have sub: "size_sub (iLength a) 0 = iLength a"
    using assms(1) by (intro size_sub_exact [THEN trans]) simp_all
  have add: "size_add 0 (iLength a) = iLength a"
    using assms(1) by (intro size_add_exact [THEN trans]) simp_all
  show ?thesis using assms
    by (simp add: Append_def String_new_def KOwnTextLength_def add String_ResizeBuffer_def
        sub copy_into_def memcpy_def units_def)
qed

text \<open>
  C8. A newly constructed \<open>String\<close> has its text pointer at its inline array of
  \<^const>\<open>KOwnTextLength\<close>, that is \<open>32\<close>, units, a reserved capacity of \<open>32\<close> and length
  \<open>0\<close>. While every requested length is at most \<open>32\<close> the string keeps the inline array
  and the reserved capacity \<open>32\<close>; the first request above \<open>32\<close> moves it off the inline
  array. Appending a text of at most \<open>32\<close> units to a new string stores it in the inline
  array.
\<close>

theorem String_inline_buffer:
  "uses_own_text String_new \<and> MaxWritableLength String_new = 32 \<and> KOwnTextLength = 32
   \<and> iLength String_new = 0 \<and> length (Data String_new) = 32
   \<and> ((\<forall>n\<in>set ns. n \<le> 32) \<longrightarrow>
        (\<exists>s. resizes b String_new ns = Inr s \<and> uses_own_text s \<and> MaxWritableLength s = 32
              \<and> iLength s = last (0 # ns))
        \<and> (32 < n \<longrightarrow> (\<exists>s. resizes b String_new (ns @ [n]) = Inr s \<and> \<not> uses_own_text s)))
   \<and> (iLength a \<le> 32 \<and> iLength a \<le> length (Data a) \<longrightarrow>
        (\<exists>s. Append b String_new a = Inr s \<and> uses_own_text s \<and> MaxWritableLength s = 32
              \<and> units s = units a))"
proof -
  have 1: "\<exists>s. resizes b String_new ns = Inr s \<and> uses_own_text s \<and> MaxWritableLength s = 32
              \<and> iLength s = last (0 # ns)" if "\<forall>n\<in>set ns. n \<le> 32"
    using resizes_inline [OF that String_new_facts(1,2), of b] by (simp add: String_new_facts)
  have 2: "\<exists>s. resizes b String_new (ns @ [n]) = Inr s \<and> \<not> uses_own_text s"
    if "\<forall>n\<in>set ns. n \<le> 32" "32 < n"
  proof -
    from 1 [OF that(1)] obtain s1 where s1: "resizes b String_new ns = Inr s1"
      "uses_own_text s1" "MaxWritableLength s1 = 32" by blast
    from resize_beyond [OF s1(2,3) that(2), of b] resizes_append [OF s1(1), of n]
    show ?thesis by auto
  qed
  from 1 2 append_fresh [of a b] show ?thesis
    by (simp add: String_new_facts KOwnTextLength_def)
qed

theorem String_inline_buffer_witness:
  "(5::nat) \<le> 32 \<and> (32::nat) \<le> 32 \<and> (0::nat) \<le> 32 \<and> (32::nat) < 33
   \<and> iLength (Text 2 [97, 98]) \<le> 32
   \<and> iLength (Text 2 [97, 98]) \<le> length (Data (Text 2 [97, 98]))
   \<and> resizes Release String_new [5, 32, 0] = Inr (String 0 (replicate 32 0) OwnText 32)
   \<and> resizes Release String_new ([5, 32, 0] @ [33])
       = Inr (String 33 (replicate 32 0) (Heap (replicate 33 0)) 33)
   \<and> Append Release String_new (Text 2 [97, 98])
       = Inr (String 2 ([97, 98] @ replicate 30 0) OwnText 32)"
  using String_inline_buffer [of "[5, 32, 0]" Release 33 "Text 2 [97, 98]"]
  by (simp add: String_new_def KOwnTextLength_def String_ResizeBuffer_def Append_def
      size_add_def size_sub_def copy_into_def memcpy_def)

subsection \<open>FoldingIterator::Back\<close>

text \<open>
  C6. In every state of a folding iterator \<^verbatim>\<open>Back()\<close> fails by throwing
  \<^verbatim>\<open>KErrorUnimplemented\<close>, the result code \<open>7\<close>; it never returns.
\<close>

theorem Back_unimplemented:
  "Back it = Inl (Thrown KErrorUnimplemented) \<and> (\<forall>it'. Back it \<noteq> Inr it')
   \<and> KErrorUnimplemented = 7"
  by (simp add: Back_def KErrorUnimplemented_def)

subsection \<open>Fuzzy matching and the edit distance\<close>

text \<open>The recursion gives the least number of edits, and reversing both texts keeps it.\<close>

lemma edits_length_Nil: "edits (length ys) [] ys"
  by (induction ys) (auto intro: edits.intros)

lemma edits_length_Nil2: "edits (length xs) xs []"
  by (induction xs) (auto intro: edits.intros)

lemma edits_edit_distance: "edits (edit_distance xs ys) xs ys"
proof (induction xs ys rule: edit_distance.induct)
  case (1 ys)
  show ?case by (simp add: edits_length_Nil)
next
  case (2 x xs)
  show ?case using edits_length_Nil2 [of "x # xs"] by simp
next
  case (3 x xs y ys)
  let ?a = "edit_distance xs (y # ys) + 1"
  let ?b = "edit_distance (x # xs) ys + 1"
  let ?c = "edit_distance xs ys + (if x = y then 0 else 1)"
  have a: "edits ?a (x # xs) (y # ys)" using 3(1) by (auto intro: edits_delete)
  have b: "edits ?b (x # xs) (y # ys)" using 3(2) by (auto intro: edits_insert)
  have c: "edits ?c (x # xs) (y # ys)" using 3(3) by (auto intro: edits_keep edits_subst)
  have "edit_distance (x # xs) (y # ys) = ?a \<or> edit_distance (x # xs) (y # ys) = ?b
        \<or> edit_distance (x # xs) (y # ys) = ?c"
    by (simp add: min_def)
  with a b c show ?case by metis
qed

lemma edit_distance_Nil2: "edit_distance xs [] = length xs"
  by (cases xs) simp_all

lemma edit_distance_least: "edits n xs ys \<Longrightarrow> edit_distance xs ys \<le> n"
proof (induction rule: edits.induct)
  case edits_Nil
  show ?case by simp
next
  case (edits_keep n xs ys x)
  then show ?case by simp
next
  case (edits_subst n xs ys x y)
  then show ?case by (simp add: min_le_iff_disj)
next
  case (edits_delete n xs ys x)
  then show ?case by (cases ys) (simp_all add: edit_distance_Nil2 min_le_iff_disj)
next
  case (edits_insert n xs ys y)
  then show ?case by (cases xs) (simp_all add: min_le_iff_disj)
qed

lemma edits_snoc_keep: "edits n xs ys \<Longrightarrow> edits n (xs @ [z]) (ys @ [z])"
  by (induction rule: edits.induct) (auto intro: edits.intros)

lemma edits_snoc_subst: "edits n xs ys \<Longrightarrow> edits (Suc n) (xs @ [z]) (ys @ [w])"
  by (induction rule: edits.induct) (auto intro: edits.intros)

lemma edits_snoc_delete: "edits n xs ys \<Longrightarrow> edits (Suc n) (xs @ [z]) ys"
  by (induction rule: edits.induct) (auto intro: edits.intros)

lemma edits_snoc_insert: "edits n xs ys \<Longrightarrow> edits (Suc n) xs (ys @ [w])"
  by (induction rule: edits.induct) (auto intro: edits.intros)

lemma edits_rev: "edits n xs ys \<Longrightarrow> edits n (rev xs) (rev ys)"
  by (induction rule: edits.induct)
    (auto intro: edits_Nil edits_snoc_keep edits_snoc_subst edits_snoc_delete edits_snoc_insert)

lemma edit_distance_rev_le: "edit_distance (rev xs) (rev ys) \<le> edit_distance xs ys"
  by (intro edit_distance_least edits_rev edits_edit_distance)

lemma edit_distance_rev: "edit_distance (rev xs) (rev ys) = edit_distance xs ys"
  using edit_distance_rev_le [of xs ys] edit_distance_rev_le [of "rev xs" "rev ys"] by simp

lemma edit_distance_snoc:
  "edit_distance (xs @ [x]) (ys @ [y]) =
     min (min (edit_distance xs (ys @ [y]) + 1) (edit_distance (xs @ [x]) ys + 1))
         (edit_distance xs ys + (if x = y then 0 else 1))"
proof -
  have "edit_distance (xs @ [x]) (ys @ [y]) = edit_distance (x # rev xs) (y # rev ys)"
    using edit_distance_rev [of "xs @ [x]" "ys @ [y]"] by simp
  also have "\<dots> = min (min (edit_distance (rev xs) (rev (ys @ [y])) + 1)
                          (edit_distance (rev (xs @ [x])) (rev ys) + 1))
                     (edit_distance (rev xs) (rev ys) + (if x = y then 0 else 1))"
    by simp
  finally show ?thesis by (simp only: edit_distance_rev)
qed

lemma edits_lengths: "edits n xs ys \<Longrightarrow> length xs \<le> length ys + n \<and> length ys \<le> length xs + n"
  by (induction rule: edits.induct) auto

text \<open>
  Texts whose lengths differ by more than the cap are more than the cap apart, so the
  entries of the table outside the band of that width around its diagonal all hold
  ``exceeds''.
\<close>

lemma outside_band_exceeds:
  assumes "length xs + cap < length ys \<or> length ys + cap < length xs"
  shows "saturate cap (edit_distance xs ys) = cap + 1"
  using assms edits_lengths [OF edits_edit_distance [of xs ys]]
  by (auto simp: saturate_def)

text \<open>
  Each row of the table holds, for every prefix of the second text, the distance from the
  part of the first text read so far, with the values beyond the cap stored as ``exceeds''.
\<close>

lemma saturate_arith:
  "saturate cap (min (min (saturate cap a + 1) (saturate cap b + 1)) (saturate cap d + c))
   = saturate cap (min (min (a + 1) (b + 1)) (d + c))"
  by (simp add: saturate_def min_def)

lemma saturate_Suc: "saturate cap (saturate cap a + 1) = saturate cap (a + 1)"
  by (simp add: saturate_def min_def)

lemma prefixes_Cons_tl: "prefixes ys = [] # tl (prefixes ys)"
  by (cases ys) simp_all

lemma tl_prefixes_Cons:
  "tl (prefixes (y # ys)) = [y] # map ((#) y) (tl (prefixes ys))"
proof -
  have "tl (prefixes (y # ys)) = map ((#) y) (prefixes ys)" by simp
  also have "\<dots> = map ((#) y) ([] # tl (prefixes ys))"
    using prefixes_Cons_tl [of ys] by simp
  finally show ?thesis by simp
qed

lemma edit_distance_snoc_Nil: "edit_distance (xs @ [x]) [] = length xs + 1"
  by (simp add: edit_distance_Nil2)

lemma row_tail:
  "map (\<lambda>p. saturate cap (edit_distance zs (pre @ p))) (tl (prefixes (y # suf)))
   = saturate cap (edit_distance zs (pre @ [y]))
     # map (\<lambda>p. saturate cap (edit_distance zs ((pre @ [y]) @ p))) (tl (prefixes suf))"
  by (simp only: tl_prefixes_Cons list.map map_map o_def append_assoc append_Cons append_Nil
      append_Nil2)

lemma fill_row_invariant:
  "fill_row cap x suf (saturate cap (edit_distance xs pre))
     (map (\<lambda>p. saturate cap (edit_distance xs (pre @ p))) (tl (prefixes suf)))
     (saturate cap (edit_distance (xs @ [x]) pre))
   = map (\<lambda>p. saturate cap (edit_distance (xs @ [x]) (pre @ p))) (tl (prefixes suf))"
proof (induction suf arbitrary: pre)
  case Nil
  show ?case by simp
next
  case (Cons y suf)
  have cell: "saturate cap
          (min (min (saturate cap (edit_distance xs (pre @ [y])) + 1)
                    (saturate cap (edit_distance (xs @ [x]) pre) + 1))
               (saturate cap (edit_distance xs pre) + (if x = y then 0 else 1)))
        = saturate cap (edit_distance (xs @ [x]) (pre @ [y]))"
    by (simp only: saturate_arith edit_distance_snoc)
  show ?case
    by (simp only: row_tail fill_row.simps Let_def cell Cons.IH [of "pre @ [y]"])
qed

lemma next_row_invariant:
  "next_row cap ys (map (\<lambda>p. saturate cap (edit_distance xs p)) (prefixes ys)) x
   = map (\<lambda>p. saturate cap (edit_distance (xs @ [x]) p)) (prefixes ys)"
proof -
  have top: "saturate cap (saturate cap (edit_distance xs []) + 1)
             = saturate cap (edit_distance (xs @ [x]) [])"
    by (simp only: saturate_Suc edit_distance_Nil2 length_append_singleton Suc_eq_plus1)
  have "next_row cap ys
          (map (\<lambda>p. saturate cap (edit_distance xs ([] @ p))) ([] # tl (prefixes ys))) x
        = map (\<lambda>p. saturate cap (edit_distance (xs @ [x]) ([] @ p))) ([] # tl (prefixes ys))"
    by (simp only: list.map next_row.simps Let_def append_Nil2 top fill_row_invariant)
  then show ?thesis
    by (simp only: append_Nil prefixes_Cons_tl [symmetric])
qed

lemma map_length_prefixes: "map length (prefixes ys) = [0..<length ys + 1]"
proof (induction ys)
  case Nil
  show ?case by simp
next
  case (Cons y ys)
  have "map length (prefixes (y # ys)) = 0 # map Suc (map length (prefixes ys))"
    by (simp add: o_def)
  also have "\<dots> = 0 # map Suc [0..<length ys + 1]" by (simp only: Cons.IH)
  also have "\<dots> = [0..<length (y # ys) + 1]"
    by (simp add: map_Suc_upt upt_conv_Cons del: upt_Suc)
  finally show ?case .
qed

lemma first_row_invariant:
  "first_row cap ys = map (\<lambda>p. saturate cap (edit_distance [] p)) (prefixes ys)"
proof -
  have "map (\<lambda>p. saturate cap (edit_distance [] p)) (prefixes ys)
        = map (saturate cap) (map length (prefixes ys))" by (simp add: o_def)
  then show ?thesis by (simp only: first_row_def map_length_prefixes)
qed

lemma rows_invariant:
  "foldl (next_row cap ys) (first_row cap ys) xs
   = map (\<lambda>p. saturate cap (edit_distance xs p)) (prefixes ys)"
proof (induction xs rule: rev_induct)
  case Nil
  show ?case by (simp only: foldl_Nil first_row_invariant)
next
  case (snoc x xs)
  show ?case by (simp only: foldl_append foldl_Cons foldl_Nil snoc.IH next_row_invariant)
qed

lemma last_prefixes': "last (prefixes ys) = ys"
  by (induction ys rule: rev_induct) simp_all

lemma capped_distance_eq:
  "capped_distance cap xs ys = saturate cap (edit_distance xs ys)"
proof -
  have "prefixes ys \<noteq> []" by (cases ys) simp_all
  then show ?thesis
    by (simp add: capped_distance_def rows_invariant last_map last_prefixes' del: edit_distance.simps)
qed

lemma FuzzyCompare_eq:
  "FuzzyCompare A B m =
     (if int (edit_distance A B) \<le> min m KMaxFuzzyDistance then Some (edit_distance A B) else None)"
  by (auto simp: FuzzyCompare_def Let_def capped_distance_eq saturate_def min_def KMaxFuzzyDistance_def)

lemma FuzzyMatch_eq:
  "FuzzyMatch A B m \<longleftrightarrow> int (edit_distance A B) \<le> min m KMaxFuzzyDistance"
  by (simp add: FuzzyMatch_def FuzzyCompare_eq)

text \<open>
  C2. The cap constant \<^verbatim>\<open>KMaxFuzzyDistance\<close> is \<open>4\<close>, and for all texts \<open>A\<close> and
  \<open>B\<close> and every maximum distance of at most \<open>4\<close>, \<open>FuzzyMatch\<close> is true exactly when
  the edit distance of \<open>A\<close> and \<open>B\<close> is at most the maximum, that is, exactly when some
  number of insertions, deletions and substitutions within the maximum turns \<open>A\<close> into
  \<open>B\<close>; \<open>FuzzyCompare\<close> gives the distance in that case and ``exceeds'' otherwise.
\<close>

theorem FuzzyMatch_bound:
  assumes "aMaxDistance \<le> 4"
  shows "KMaxFuzzyDistance = 4
         \<and> (FuzzyMatch A B aMaxDistance \<longleftrightarrow> int (edit_distance A B) \<le> aMaxDistance)
         \<and> (FuzzyMatch A B aMaxDistance \<longleftrightarrow> (\<exists>d. edits d A B \<and> int d \<le> aMaxDistance))
         \<and> FuzzyCompare A B aMaxDistance =
             (if int (edit_distance A B) \<le> aMaxDistance then Some (edit_distance A B) else None)"
proof -
  have m: "min aMaxDistance KMaxFuzzyDistance = aMaxDistance"
    using assms by (simp add: KMaxFuzzyDistance_def)
  have "(\<exists>d. edits d A B \<and> int d \<le> aMaxDistance) \<longleftrightarrow> int (edit_distance A B) \<le> aMaxDistance"
  proof
    assume "\<exists>d. edits d A B \<and> int d \<le> aMaxDistance"
    then obtain d where "edits d A B" "int d \<le> aMaxDistance" by blast
    with edit_distance_least [of d A B] show "int (edit_distance A B) \<le> aMaxDistance" by simp
  next
    assume "int (edit_distance A B) \<le> aMaxDistance"
    with edits_edit_distance [of A B] show "\<exists>d. edits d A B \<and> int d \<le> aMaxDistance" by blast
  qed
  then show ?thesis
    by (simp add: FuzzyMatch_eq FuzzyCompare_eq m) (simp add: KMaxFuzzyDistance_def)
qed

theorem FuzzyMatch_bound_witness:
  "(1::int) \<le> 4
   \<and> FuzzyMatch [80, 105, 99, 97, 100, 105, 108, 108, 121]
        [80, 105, 99, 99, 97, 100, 105, 108, 108, 121] 1
   \<and> int (edit_distance [80, 105, 99, 97, 100, 105, 108, 108, 121 :: int]
        [80, 105, 99, 99, 97, 100, 105, 108, 108, 121]) \<le> 1
   \<and> \<not> FuzzyMatch [80, 105, 99, 97, 100, 105, 108, 108, 121]
        [80, 105, 99, 99, 97, 100, 105, 108, 108, 121] 0"
proof -
  have h: "(1::int) \<le> 4" by simp
  have e1: "FuzzyMatch [80, 105, 99, 97, 100, 105, 108, 108, 121]
        [80, 105, 99, 99, 97, 100, 105, 108, 108, 121] 1"
    by code_simp
  have e0: "\<not> FuzzyMatch [80, 105, 99, 97, 100, 105, 108, 108, 121]
        [80, 105, 99, 99, 97, 100, 105, 108, 108, 121] 0"
    by code_simp
  show ?thesis
    using h e1 e0
      FuzzyMatch_bound [OF h, of "[80, 105, 99, 97, 100, 105, 108, 108, 121]"
        "[80, 105, 99, 99, 97, 100, 105, 108, 108, 121]"]
    by (simp del: edit_distance.simps)
qed

end
